theory Spec2Isabelle
  imports Main
begin

section \<open>Errors\<close>

text \<open>
  Every exception the interpreter can raise is a value of \<open>error\<close>; a computation that
  may raise returns \<open>error + 'a\<close> with \<open>Inl\<close> the exception.

  \<^item> \<open>SyntaxError msg\<close>: the \<^verbatim>\<open>raise SyntaxError(msg)\<close> statements of \<^verbatim>\<open>lexer\<close> and \<^verbatim>\<open>parser\<close>;
  \<^item> \<open>RuntimeError msg name\<close>: \<^verbatim>\<open>raise RuntimeError("Unbound variable", name)\<close> of \<^verbatim>\<open>eval\<close>;
  \<^item> \<open>IndexError\<close>: Python's own exception for \<^verbatim>\<open>code[0]\<close> on the empty string,
    \<^verbatim>\<open>pop()\<close> on an empty list and \<^verbatim>\<open>exp_stk[0]\<close> on an empty list;
  \<^item> \<open>KeyError k\<close>: Python's own exception for \<^verbatim>\<open>op_precedence[op]\<close> on an absent key;
  \<^item> \<open>ValueError msg\<close>: \<^verbatim>\<open>unknown_op\<close>, the default factory of \<^verbatim>\<open>op_lookup\<close>;
  \<^item> \<open>ZeroDivisionError\<close>: Python's own exception for \<^verbatim>\<open>//\<close> with a zero divisor.
\<close>

datatype error =
    SyntaxError string
  | RuntimeError string string
  | IndexError
  | KeyError string
  | ValueError string
  | ZeroDivisionError

section \<open>Expressions and the evaluator\<close>

text \<open>
  The dataclasses \<^verbatim>\<open>Sum\<close>, \<^verbatim>\<open>Difference\<close>, \<^verbatim>\<open>Negation\<close>, \<^verbatim>\<open>Product\<close>, \<^verbatim>\<open>Quotient\<close>,
  \<^verbatim>\<open>Int\<close>, \<^verbatim>\<open>Assign\<close> and \<^verbatim>\<open>Var\<close>. The constructor for \<^verbatim>\<open>Int\<close> is called \<open>IntExp\<close>
  because \<open>Int\<close> is the ASCII notation of set intersection. Python integers are unbounded:
  \<open>int\<close>.
\<close>

datatype exp =
    Sum exp exp
  | Difference exp exp
  | Negation exp
  | Product exp exp
  | Quotient exp exp
  | IntExp int
  | Assign string exp exp
  | Var string

text \<open>\<^verbatim>\<open>Env = dict[str, int]\<close>: the contents of a dictionary.\<close>

type_synonym env = "string \<rightharpoonup> int"

text \<open>
  \<^verbatim>\<open>eval\<close> on the contents of the environment. The left operand is evaluated before the
  right one, and an exception of either ends the evaluation. \<^verbatim>\<open>//\<close> is floor division,
  as \<open>div\<close> on \<open>int\<close> is, but raises on a zero divisor where \<open>div\<close> returns \<open>0\<close>.
  \<^verbatim>\<open>env = env.copy(); env[name] = eval(val, env)\<close> evaluates \<^verbatim>\<open>val\<close> under the copy, whose
  contents are those of the caller's dictionary, and then updates the copy. The final
  \<^verbatim>\<open>case _\<close> of the source is not reachable for a value of type \<^verbatim>\<open>Exp\<close>.
\<close>

fun eval :: "exp \<Rightarrow> env \<Rightarrow> error + int" where
  "eval (Sum left right) env =
     (case eval left env of Inl e \<Rightarrow> Inl e | Inr a \<Rightarrow>
        (case eval right env of Inl e \<Rightarrow> Inl e | Inr b \<Rightarrow> Inr (a + b)))"
| "eval (Difference left right) env =
     (case eval left env of Inl e \<Rightarrow> Inl e | Inr a \<Rightarrow>
        (case eval right env of Inl e \<Rightarrow> Inl e | Inr b \<Rightarrow> Inr (a - b)))"
| "eval (Negation exp) env =
     (case eval exp env of Inl e \<Rightarrow> Inl e | Inr a \<Rightarrow> Inr (- a))"
| "eval (Product left right) env =
     (case eval left env of Inl e \<Rightarrow> Inl e | Inr a \<Rightarrow>
        (case eval right env of Inl e \<Rightarrow> Inl e | Inr b \<Rightarrow> Inr (a * b)))"
| "eval (Quotient left right) env =
     (case eval left env of Inl e \<Rightarrow> Inl e | Inr a \<Rightarrow>
        (case eval right env of Inl e \<Rightarrow> Inl e | Inr b \<Rightarrow>
           if b = 0 then Inl ZeroDivisionError else Inr (a div b)))"
| "eval (IntExp val) env = Inr val"
| "eval (Assign name val body) env =
     (case eval val env of Inl e \<Rightarrow> Inl e | Inr v \<Rightarrow> eval body (env(name \<mapsto> v)))"
| "eval (Var name) env =
     (case env name of None \<Rightarrow> Inl (RuntimeError ''Unbound variable'' name)
      | Some v \<Rightarrow> Inr v)"

subsection \<open>The evaluator on a store of dictionaries\<close>

text \<open>
  Python dictionaries are mutable objects passed by reference. To state what \<^verbatim>\<open>eval\<close>
  does to the dictionary of its caller, the store is a list of dictionary contents, an
  address is an index into it, and \<^verbatim>\<open>env.copy()\<close> allocates a new dictionary at the end.
  \<open>eval_store exp a h\<close> is \<^verbatim>\<open>eval(exp, env)\<close> with \<^verbatim>\<open>env\<close> the dictionary at address \<open>a\<close>
  of the store \<open>h\<close>; it returns the result and the store after the call.
  In \<^verbatim>\<open>env[name] = eval(val, env)\<close> the right-hand side is evaluated first, with the copy
  as its environment, and the copy is then updated in place.
\<close>

type_synonym store = "env list"

fun eval_store :: "exp \<Rightarrow> nat \<Rightarrow> store \<Rightarrow> (error + int) \<times> store" where
  "eval_store (Sum left right) a h =
     (case eval_store left a h of
        (Inl e, h1) \<Rightarrow> (Inl e, h1)
      | (Inr x, h1) \<Rightarrow>
          (case eval_store right a h1 of
             (Inl e, h2) \<Rightarrow> (Inl e, h2)
           | (Inr y, h2) \<Rightarrow> (Inr (x + y), h2)))"
| "eval_store (Difference left right) a h =
     (case eval_store left a h of
        (Inl e, h1) \<Rightarrow> (Inl e, h1)
      | (Inr x, h1) \<Rightarrow>
          (case eval_store right a h1 of
             (Inl e, h2) \<Rightarrow> (Inl e, h2)
           | (Inr y, h2) \<Rightarrow> (Inr (x - y), h2)))"
| "eval_store (Negation exp) a h =
     (case eval_store exp a h of
        (Inl e, h1) \<Rightarrow> (Inl e, h1)
      | (Inr x, h1) \<Rightarrow> (Inr (- x), h1))"
| "eval_store (Product left right) a h =
     (case eval_store left a h of
        (Inl e, h1) \<Rightarrow> (Inl e, h1)
      | (Inr x, h1) \<Rightarrow>
          (case eval_store right a h1 of
             (Inl e, h2) \<Rightarrow> (Inl e, h2)
           | (Inr y, h2) \<Rightarrow> (Inr (x * y), h2)))"
| "eval_store (Quotient left right) a h =
     (case eval_store left a h of
        (Inl e, h1) \<Rightarrow> (Inl e, h1)
      | (Inr x, h1) \<Rightarrow>
          (case eval_store right a h1 of
             (Inl e, h2) \<Rightarrow> (Inl e, h2)
           | (Inr y, h2) \<Rightarrow>
               (if y = 0 then Inl ZeroDivisionError else Inr (x div y), h2)))"
| "eval_store (IntExp val) a h = (Inr val, h)"
| "eval_store (Assign name val body) a h =
     (let a' = length h;
          h0 = h @ [h ! a]
      in case eval_store val a' h0 of
           (Inl e, h1) \<Rightarrow> (Inl e, h1)
         | (Inr v, h1) \<Rightarrow> eval_store body a' (h1[a' := (h1 ! a')(name \<mapsto> v)]))"
| "eval_store (Var name) a h =
     (case (h ! a) name of
        None \<Rightarrow> (Inl (RuntimeError ''Unbound variable'' name), h)
      | Some v \<Rightarrow> (Inr v, h))"

section \<open>Tokens and the lexer\<close>

text \<open>
  The dataclasses \<^verbatim>\<open>VarToken\<close>, \<^verbatim>\<open>IntToken\<close>, \<^verbatim>\<open>OpToken\<close> (whose field is a \<^verbatim>\<open>str\<close>),
  \<^verbatim>\<open>ParToken\<close> and \<^verbatim>\<open>EndToken\<close>.
\<close>

datatype token =
    VarToken string
  | IntToken int
  | OpToken string
  | ParToken bool
  | EndToken

text \<open>
  Character classes. A \<open>char\<close> is a code point below 256, so the model covers source
  text in Latin-1. \<^verbatim>\<open>"0" <= c <= "9"\<close> compares code points. \<^verbatim>\<open>str.isalpha\<close> and
  \<^verbatim>\<open>str.isalnum\<close> follow the Unicode database; below 256 they hold exactly at the code
  points listed here.
\<close>

definition is_digit :: "char \<Rightarrow> bool" where
  "is_digit c = (let n = (of_char c :: nat) in 48 \<le> n \<and> n \<le> 57)"

definition isalpha :: "char \<Rightarrow> bool" where
  "isalpha c =
     (let n = (of_char c :: nat) in
        (65 \<le> n \<and> n \<le> 90) \<or> (97 \<le> n \<and> n \<le> 122) \<or> n = 170 \<or> n = 181 \<or> n = 186 \<or>
        (192 \<le> n \<and> n \<le> 214) \<or> (216 \<le> n \<and> n \<le> 246) \<or> (248 \<le> n \<and> n \<le> 255))"

definition isalnum :: "char \<Rightarrow> bool" where
  "isalnum c =
     (let n = (of_char c :: nat) in
        isalpha c \<or> (48 \<le> n \<and> n \<le> 57) \<or> n = 178 \<or> n = 179 \<or> n = 185 \<or>
        (188 \<le> n \<and> n \<le> 190))"

text \<open>The loop condition of an identifier: \<^verbatim>\<open>code[i].isalnum() or code[i] == "_"\<close>.\<close>

definition is_word :: "char \<Rightarrow> bool" where
  "is_word c = (isalnum c \<or> c = CHR ''_'')"

text \<open>\<^verbatim>\<open>code[0] in " \t\n\r"\<close>.\<close>

definition is_space :: "char \<Rightarrow> bool" where
  "is_space c = (c \<in> set [CHR '' '', CHR 0x09, CHR 0x0A, CHR 0x0D])"

text \<open>\<^verbatim>\<open>int(integer)\<close> on a string of ASCII digits.\<close>

definition int_of_digits :: "string \<Rightarrow> int" where
  "int_of_digits ds = foldl (\<lambda>a c. 10 * a + (int (of_char c) - 48)) 0 ds"

text \<open>
  The \<^verbatim>\<open>match prev\<close> of the lexer: the cases \<^verbatim>\<open>None\<close>, \<^verbatim>\<open>OpToken(val)\<close>,
  \<^verbatim>\<open>ParToken(is_left=True)\<close> and \<^verbatim>\<open>EndToken()\<close> drop the \<^verbatim>\<open>-\<close> and clear
  \<^verbatim>\<open>is_subtraction\<close>; no other case matches.
\<close>

fun sign_position :: "token option \<Rightarrow> bool" where
  "sign_position None = True"
| "sign_position (Some (OpToken val)) = True"
| "sign_position (Some (ParToken is_left)) = is_left"
| "sign_position (Some EndToken) = True"
| "sign_position (Some (VarToken name)) = False"
| "sign_position (Some (IntToken val)) = False"

text \<open>
  \<^verbatim>\<open>rest.append(token)\<close> and the two further appends made when \<^verbatim>\<open>is_subtraction\<close> is
  false, on the result of the recursive call; an exception of the recursive call
  propagates.
\<close>

definition append_tokens :: "error + token list \<Rightarrow> token list \<Rightarrow> error + token list" where
  "append_tokens r ts = (case r of Inl e \<Rightarrow> Inl e | Inr rest \<Rightarrow> Inr (rest @ ts))"

definition minus_one :: "bool \<Rightarrow> token list" where
  "minus_one is_subtraction = (if is_subtraction then [] else [OpToken ''*'', IntToken (- 1)])"

text \<open>
  \<^verbatim>\<open>lexer(code, prev)\<close>. It returns the tokens in reverse source order: the tokens of the
  rest of the text come first and the token read here is appended. The two \<^verbatim>\<open>while\<close>
  loops collect the longest prefix of digits, or of identifier characters, and the
  recursive call gets what follows it. After a \<^verbatim>\<open>-\<close> in sign position has been dropped
  the text may be empty, and \<^verbatim>\<open>code[0]\<close> then raises \<^verbatim>\<open>IndexError\<close>. The limits of the
  Python runtime (the depth of recursion, the length of a digit string accepted by
  \<^verbatim>\<open>int\<close>) are not part of the model.
\<close>

function lexer :: "string \<Rightarrow> token option \<Rightarrow> error + token list" where
  "lexer code prev =
     (if code = [] then Inr []
      else
        let is_subtraction = \<not> (hd code = CHR ''-'' \<and> sign_position prev);
            code1 = (if is_subtraction then code else tl code)
        in
          if code1 = [] then Inl IndexError
          else if is_digit (hd code1) then
            (let integer = takeWhile is_digit code1;
                 token = (if is_subtraction then IntToken (int_of_digits integer)
                          else IntToken (- int_of_digits integer))
             in append_tokens (lexer (dropWhile is_digit code1) (Some token)) [token])
          else if isalpha (hd code1) \<or> hd code1 = CHR ''_'' then
            (let var_name = takeWhile is_word code1
             in append_tokens (lexer (dropWhile is_word code1) (Some (VarToken var_name)))
                  (VarToken var_name # minus_one is_subtraction))
          else if hd code1 \<in> set ''+-*/='' then
            append_tokens (lexer (tl code1) (Some (OpToken [hd code1]))) [OpToken [hd code1]]
          else if hd code1 \<in> set ''()'' then
            append_tokens (lexer (tl code1) (Some (ParToken (hd code1 = CHR ''(''))))
              (ParToken (hd code1 = CHR ''('') # minus_one is_subtraction)
          else if is_space (hd code1) then lexer (tl code1) prev
          else if hd code1 = CHR '';'' then
            append_tokens (lexer (tl code1) (Some EndToken)) [EndToken]
          else Inl (SyntaxError (''Unknown token '' @ [hd code1])))"
  by pat_completeness auto

lemma length_dropWhile_less:
  "xs \<noteq> [] \<Longrightarrow> P (hd xs) \<Longrightarrow> length (dropWhile P xs) < length xs"
  by (cases xs) (simp_all add: le_imp_less_Suc length_dropWhile_le)

lemma length_dropWhile_tl_less:
  "xs \<noteq> [] \<Longrightarrow> tl xs \<noteq> [] \<Longrightarrow> P (hd (tl xs)) \<Longrightarrow> length (dropWhile P (tl xs)) < length xs"
  using length_dropWhile_less [of "tl xs" P] by (cases xs) simp_all

lemma is_word_start: "isalpha c \<or> c = CHR ''_'' \<Longrightarrow> is_word c"
  by (auto simp: is_word_def isalnum_def)

termination lexer
proof (relation "measure (\<lambda>(code, prev). length code)", goal_cases)
  case 1
  show ?case by simp
next
  case (2 code prev is_sub code1 integer token)
  then show ?case
    by (auto simp: length_dropWhile_less length_dropWhile_tl_less)
next
  case (3 code prev is_sub code1 var_name)
  then have "is_word (hd code1)"
    by (intro is_word_start) simp
  with 3 show ?case
    by (auto simp: length_dropWhile_less length_dropWhile_tl_less split: if_splits)
next
  case 4
  then show ?case by (auto split: if_splits)
next
  case 5
  then show ?case by (auto split: if_splits)
next
  case 6
  then show ?case by (auto split: if_splits)
next
  case 7
  then show ?case by (auto split: if_splits)
qed

declare lexer.simps [simp del]

section \<open>The parser\<close>

text \<open>
  \<^verbatim>\<open>op_lookup\<close> is a \<^verbatim>\<open>defaultdict\<close>: on an absent key it calls \<^verbatim>\<open>unknown_op\<close>, which raises
  \<^verbatim>\<open>ValueError\<close> (\<open>None\<close> here). \<^verbatim>\<open>op_precedence\<close> is a plain dictionary: an absent key
  raises \<^verbatim>\<open>KeyError\<close> (\<open>None\<close> here).
\<close>

definition op_lookup :: "string \<Rightarrow> (exp \<Rightarrow> exp \<Rightarrow> exp) option" where
  "op_lookup op =
     (if op = ''+'' then Some Sum
      else if op = ''-'' then Some Difference
      else if op = ''*'' then Some Product
      else if op = ''/'' then Some Quotient
      else None)"

definition op_precedence :: "string \<Rightarrow> nat option" where
  "op_precedence op =
     (if op = ''+'' then Some 1
      else if op = ''-'' then Some 1
      else if op = ''*'' then Some 2
      else if op = ''/'' then Some 2
      else None)"

text \<open>
  The two stacks are Python lists: \<^verbatim>\<open>append\<close> adds at the end, \<^verbatim>\<open>pop()\<close> removes the last
  element and raises \<^verbatim>\<open>IndexError\<close> on an empty list, \<^verbatim>\<open>op_stk[-1]\<close> is the last element
  and \<^verbatim>\<open>exp_stk[0]\<close> the first.
\<close>

definition pop :: "'a list \<Rightarrow> error + ('a \<times> 'a list)" where
  "pop xs = (if xs = [] then Inl IndexError else Inr (last xs, butlast xs))"

text \<open>
  \<^verbatim>\<open>handle_top(op)\<close> on the two stacks, returning them updated. \<^verbatim>\<open>if op:\<close> is false for
  \<^verbatim>\<open>None\<close> and for the empty string.
\<close>

definition handle_top ::
  "string option \<Rightarrow> string list \<Rightarrow> exp list \<Rightarrow> error + (string list \<times> exp list)" where
  "handle_top op op_stk exp_stk =
     (case pop op_stk of Inl e \<Rightarrow> Inl e | Inr (top_op, op_stk1) \<Rightarrow>
      case pop exp_stk of Inl e \<Rightarrow> Inl e | Inr (rhs, exp_stk1) \<Rightarrow>
      case pop exp_stk1 of Inl e \<Rightarrow> Inl e | Inr (lhs, exp_stk2) \<Rightarrow>
      case op_lookup top_op of None \<Rightarrow> Inl (ValueError ''Unknown operator'')
      | Some init \<Rightarrow>
          Inr (case op of None \<Rightarrow> op_stk1
               | Some op1 \<Rightarrow> if op1 = [] then op_stk1 else op_stk1 @ [op1],
               exp_stk2 @ [init lhs rhs]))"

lemma handle_top_None_length:
  "handle_top None op_stk exp_stk = Inr (op_stk1, exp_stk1) \<Longrightarrow> length op_stk1 < length op_stk"
  by (auto simp: handle_top_def pop_def split: if_splits option.splits)

text \<open>
  The three statements \<^verbatim>\<open>while op_stk: handle_top()\<close>, \<^verbatim>\<open>return exp_stk[0], pos\<close> that end
  the parser at a terminator, at a close parenthesis, after an assignment and at the end
  of the tokens.
\<close>

function return_top :: "string list \<Rightarrow> exp list \<Rightarrow> nat \<Rightarrow> error + (exp \<times> nat)" where
  "return_top op_stk exp_stk pos =
     (if op_stk \<noteq> [] then
        (case handle_top None op_stk exp_stk of Inl e \<Rightarrow> Inl e
         | Inr (op_stk1, exp_stk1) \<Rightarrow> return_top op_stk1 exp_stk1 pos)
      else if exp_stk = [] then Inl IndexError
      else Inr (hd exp_stk, pos))"
  by pat_completeness auto

termination return_top
  by (relation "measure (\<lambda>(op_stk, exp_stk, pos). length op_stk)")
     (auto simp: handle_top_None_length)

declare return_top.simps [simp del]

text \<open>
  The \<^verbatim>\<open>while len(tokens) > pos\<close> loop of \<^verbatim>\<open>parser\<close> with its local state \<^verbatim>\<open>pos\<close>,
  \<^verbatim>\<open>op_stk\<close>, \<^verbatim>\<open>exp_stk\<close>. A recursive call \<^verbatim>\<open>parser(tokens[pos:], n)\<close> is the loop on the
  slice, started at position \<open>0\<close> with empty stacks. The cases are tried in the order of
  the \<^verbatim>\<open>match\<close> statement: \<^verbatim>\<open>OpToken("=")\<close> before \<^verbatim>\<open>OpToken(op)\<close>. The final \<^verbatim>\<open>case _\<close>,
  which raises \<^verbatim>\<open>SyntaxError("Syntax Error")\<close>, is not reachable for a list of tokens,
  because the five token classes are all matched before it.
\<close>

function parser_loop ::
  "token list \<Rightarrow> nat \<Rightarrow> nat \<Rightarrow> string list \<Rightarrow> exp list \<Rightarrow> error + (exp \<times> nat)" where
  "parser_loop tokens nested_level pos op_stk exp_stk =
     (if length tokens > pos then
        (case tokens ! pos of
           IntToken val \<Rightarrow> parser_loop tokens nested_level (pos + 1) op_stk (exp_stk @ [IntExp val])
         | OpToken op \<Rightarrow>
             if op = ''='' then
               (if exp_stk = [] then Inl (SyntaxError ''Unexpected assignment'')
                else
                  (case last exp_stk of
                     Var name \<Rightarrow>
                       (case parser_loop (drop (pos + 1) tokens) nested_level 0 [] [] of
                          Inl e \<Rightarrow> Inl e
                        | Inr (val, k) \<Rightarrow>
                            (case parser_loop (drop (pos + 1 + k) tokens) nested_level 0 [] [] of
                               Inl e \<Rightarrow> Inl e
                             | Inr (body, k') \<Rightarrow>
                                 return_top op_stk (butlast exp_stk @ [Assign name val body])
                                   (pos + 1 + k + k')))
                   | _ \<Rightarrow> Inl (SyntaxError ''Unexpected assignment'')))
             else if op_stk = [] then parser_loop tokens nested_level (pos + 1) [op] exp_stk
             else
               (case op_precedence op of None \<Rightarrow> Inl (KeyError op)
                | Some p \<Rightarrow>
                    (case op_precedence (last op_stk) of None \<Rightarrow> Inl (KeyError (last op_stk))
                     | Some q \<Rightarrow>
                         if p \<le> q then
                           (case handle_top (Some op) op_stk exp_stk of Inl e \<Rightarrow> Inl e
                            | Inr (op_stk1, exp_stk1) \<Rightarrow>
                                parser_loop tokens nested_level (pos + 1) op_stk1 exp_stk1)
                         else parser_loop tokens nested_level (pos + 1) (op_stk @ [op]) exp_stk))
         | ParToken is_left \<Rightarrow>
             if is_left then
               (case parser_loop (drop (pos + 1) tokens) (nested_level + 1) 0 [] [] of
                  Inl e \<Rightarrow> Inl e
                | Inr (exp, k) \<Rightarrow>
                    parser_loop tokens nested_level (pos + 1 + k) op_stk (exp_stk @ [exp]))
             else if nested_level = 0 then Inl (SyntaxError ''Unbalanced parentheses'')
             else return_top op_stk exp_stk (pos + 1)
         | VarToken name \<Rightarrow> parser_loop tokens nested_level (pos + 1) op_stk (exp_stk @ [Var name])
         | EndToken \<Rightarrow> return_top op_stk exp_stk (pos + 1))
      else return_top op_stk exp_stk pos)"
  by pat_completeness auto

termination parser_loop
  by (relation "measure (\<lambda>(tokens, nested_level, pos, op_stk, exp_stk). length tokens - pos)")
     auto

declare parser_loop.simps [simp del]

text \<open>\<^verbatim>\<open>parser(tokens, nested_level)\<close>: the loop from its initial state.\<close>

definition parser :: "token list \<Rightarrow> nat \<Rightarrow> error + (exp \<times> nat)" where
  "parser tokens nested_level = parser_loop tokens nested_level 0 [] []"

section \<open>The pipeline of the host loop\<close>

text \<open>
  The host evaluates \<^verbatim>\<open>eval(parser(lexer(user_code)[::-1])[0], env.copy())\<close>. The slice
  \<^verbatim>\<open>[::-1]\<close> reverses the list returned by \<^verbatim>\<open>lexer\<close>, so \<open>tokenize\<close> is the token
  sequence that the parser receives. The global \<^verbatim>\<open>env\<close> of the host is never assigned to,
  so the host always passes a copy of the empty dictionary; \<open>run\<close> takes the contents of
  the environment as a parameter.
\<close>

definition tokenize :: "string \<Rightarrow> error + token list" where
  "tokenize user_code =
     (case lexer user_code None of Inl e \<Rightarrow> Inl e | Inr tokens \<Rightarrow> Inr (rev tokens))"

definition run :: "string \<Rightarrow> env \<Rightarrow> error + int" where
  "run user_code env =
     (case tokenize user_code of Inl e \<Rightarrow> Inl e
      | Inr tokens \<Rightarrow>
          (case parser tokens 0 of Inl e \<Rightarrow> Inl e
           | Inr (ast, k) \<Rightarrow> eval ast env))"


section \<open>Notions used to state the properties of the lexer\<close>

text \<open>
  \<open>tokenize_after prev code\<close> is \<^verbatim>\<open>lexer(code, prev)[::-1]\<close>: the tokens of a text in source
  order when the token before the text is \<open>prev\<close>. \<open>tokenize\<close> is \<open>tokenize_after None\<close>.
\<close>

definition tokenize_after :: "token option \<Rightarrow> string \<Rightarrow> error + token list" where
  "tokenize_after prev code =
     (case lexer code prev of Inl e \<Rightarrow> Inl e | Inr tokens \<Rightarrow> Inr (rev tokens))"

text \<open>
  The last token of a sequence in source order, \<open>None\<close> for the empty sequence: the
  \<^verbatim>\<open>prev\<close> with which the lexer, started with \<^verbatim>\<open>prev = None\<close>, reaches the end of a text
  that has these tokens.
\<close>

definition last_token :: "token list \<Rightarrow> token option" where
  "last_token ts = (if ts = [] then None else Some (last ts))"

text \<open>
  The same for the list that \<^verbatim>\<open>lexer\<close> itself returns, which is in reverse source order,
  and for any \<^verbatim>\<open>prev\<close> at the start.
\<close>

definition prev_after :: "token option \<Rightarrow> token list \<Rightarrow> token option" where
  "prev_after prev ts = (case ts of [] \<Rightarrow> prev | t # _ \<Rightarrow> Some t)"

text \<open>The tokens \<open>ts\<close> followed by the tokens of \<open>r\<close>; an exception of \<open>r\<close> propagates.\<close>

definition then_tokens :: "token list \<Rightarrow> error + token list \<Rightarrow> error + token list" where
  "then_tokens ts r = (case r of Inl e \<Rightarrow> Inl e | Inr us \<Rightarrow> Inr (ts @ us))"

text \<open>
  A text is cut between \<open>pre\<close> and \<open>suf\<close> at a token boundary when the cut is not inside
  a number or an identifier: one of the two parts is empty, or the character before the
  cut or the character after it is not an identifier character (the digits are
  identifier characters).
\<close>

definition token_boundary :: "string \<Rightarrow> string \<Rightarrow> bool" where
  "token_boundary pre suf = (pre = [] \<or> suf = [] \<or> \<not> is_word (last pre) \<or> \<not> is_word (hd suf))"

section \<open>Arithmetic: precedence and associativity\<close>

text \<open>
  C1. The claim: for every well-formed arithmetic-only text the pipeline returns the value
  under standard precedence, left associativity and floor division. The code does not:
  on \<^verbatim>\<open>1-2*3-4\<close> the second \<^verbatim>\<open>-\<close> pops only the pending \<^verbatim>\<open>*\<close> and is pushed above the
  first \<^verbatim>\<open>-\<close>, and the final drain combines the stack from the top, so the parser builds
  \<^verbatim>\<open>1-((2*3)-4)\<close> and the pipeline returns \<open>-1\<close>. The left-associative tree
  \<^verbatim>\<open>(1-(2*3))-4\<close> has the value \<open>-9\<close>. A second divergence comes from the lexer: a unary
  minus before a parenthesis becomes \<^verbatim>\<open>-1 *\<close>, which the parser combines with what stands
  to its left, so \<^verbatim>\<open>7/-(2)\<close> is \<^verbatim>\<open>(7/-1)*2 = -14\<close>, where \<^verbatim>\<open>7/(-2)\<close> is \<open>-4\<close>.
\<close>

theorem run_mixed_precedence_chain:
  "tokenize ''1-2*3-4'' =
     Inr [IntToken 1, OpToken ''-'', IntToken 2, OpToken ''*'', IntToken 3, OpToken ''-'',
          IntToken 4]
   \<and> parser [IntToken 1, OpToken ''-'', IntToken 2, OpToken ''*'', IntToken 3, OpToken ''-'',
          IntToken 4] 0 =
     Inr (Difference (IntExp 1) (Difference (Product (IntExp 2) (IntExp 3)) (IntExp 4)), 7)
   \<and> run ''1-2*3-4'' Map.empty = Inr (- 1)
   \<and> eval (Difference (Difference (IntExp 1) (Product (IntExp 2) (IntExp 3))) (IntExp 4))
         Map.empty = Inr (- 9)
   \<and> run ''7/-(2)'' Map.empty = Inr (- 14)
   \<and> eval (Quotient (IntExp 7) (Negation (IntExp 2))) Map.empty = Inr (- 4)"
  by code_simp

section \<open>Properties of the lexer\<close>

lemma append_tokens_simps [simp]:
  "append_tokens (Inl e) ts = Inl e"
  "append_tokens (Inr rest) ts = Inr (rest @ ts)"
  by (simp_all add: append_tokens_def)

lemma append_tokens_Nil [simp]: "append_tokens r [] = r"
  by (cases r) simp_all

lemma append_tokens_assoc [simp]:
  "append_tokens (append_tokens r ts) us = append_tokens r (ts @ us)"
  by (cases r) simp_all

lemma append_tokens_eq_Inr:
  "append_tokens r ts = Inr us \<longleftrightarrow> (\<exists>rest. r = Inr rest \<and> us = rest @ ts)"
  by (cases r) auto

lemma is_digit_is_word: "is_digit c \<Longrightarrow> is_word c"
  by (simp add: is_digit_def is_word_def isalnum_def Let_def)

lemma lexer_Nil [simp]: "lexer [] prev = Inr []"
  by (subst lexer.simps) simp

lemma lexer_digit:
  assumes "code \<noteq> []"
    and "is_sub = (\<not> (hd code = CHR ''-'' \<and> sign_position prev))"
    and "code1 = (if is_sub then code else tl code)"
    and "code1 \<noteq> []" and "is_digit (hd code1)"
    and "tok = (if is_sub then IntToken (int_of_digits (takeWhile is_digit code1))
                else IntToken (- int_of_digits (takeWhile is_digit code1)))"
  shows "lexer code prev = append_tokens (lexer (dropWhile is_digit code1) (Some tok)) [tok]"
  using assms by (subst lexer.simps) (simp add: Let_def)

lemma lexer_word:
  assumes "code \<noteq> []"
    and "is_sub = (\<not> (hd code = CHR ''-'' \<and> sign_position prev))"
    and "code1 = (if is_sub then code else tl code)"
    and "code1 \<noteq> []" and "\<not> is_digit (hd code1)"
    and "isalpha (hd code1) \<or> hd code1 = CHR ''_''"
    and "tok = VarToken (takeWhile is_word code1)"
  shows "lexer code prev =
           append_tokens (lexer (dropWhile is_word code1) (Some tok)) (tok # minus_one is_sub)"
  using assms by (subst lexer.simps) (simp add: Let_def)

lemma lexer_op:
  assumes "code \<noteq> []"
    and "is_sub = (\<not> (hd code = CHR ''-'' \<and> sign_position prev))"
    and "code1 = (if is_sub then code else tl code)"
    and "code1 \<noteq> []" and "\<not> is_digit (hd code1)"
    and "\<not> (isalpha (hd code1) \<or> hd code1 = CHR ''_'')"
    and "hd code1 \<in> set ''+-*/=''"
    and "tok = OpToken [hd code1]"
  shows "lexer code prev = append_tokens (lexer (tl code1) (Some tok)) [tok]"
  using assms by (subst lexer.simps) (simp add: Let_def)

lemma lexer_paren:
  assumes "code \<noteq> []"
    and "is_sub = (\<not> (hd code = CHR ''-'' \<and> sign_position prev))"
    and "code1 = (if is_sub then code else tl code)"
    and "code1 \<noteq> []" and "\<not> is_digit (hd code1)"
    and "\<not> (isalpha (hd code1) \<or> hd code1 = CHR ''_'')"
    and "hd code1 \<notin> set ''+-*/=''"
    and "hd code1 \<in> set ''()''"
    and "tok = ParToken (hd code1 = CHR ''('')"
  shows "lexer code prev =
           append_tokens (lexer (tl code1) (Some tok)) (tok # minus_one is_sub)"
  using assms by (subst lexer.simps) (simp add: Let_def)

lemma lexer_space:
  assumes "code \<noteq> []"
    and "is_sub = (\<not> (hd code = CHR ''-'' \<and> sign_position prev))"
    and "code1 = (if is_sub then code else tl code)"
    and "code1 \<noteq> []" and "\<not> is_digit (hd code1)"
    and "\<not> (isalpha (hd code1) \<or> hd code1 = CHR ''_'')"
    and "hd code1 \<notin> set ''+-*/=''"
    and "hd code1 \<notin> set ''()''"
    and "is_space (hd code1)"
  shows "lexer code prev = lexer (tl code1) prev"
  using assms by (subst lexer.simps) (simp add: Let_def)

lemma lexer_end:
  assumes "code \<noteq> []"
    and "is_sub = (\<not> (hd code = CHR ''-'' \<and> sign_position prev))"
    and "code1 = (if is_sub then code else tl code)"
    and "code1 \<noteq> []" and "\<not> is_digit (hd code1)"
    and "\<not> (isalpha (hd code1) \<or> hd code1 = CHR ''_'')"
    and "hd code1 \<notin> set ''+-*/=''"
    and "hd code1 \<notin> set ''()''"
    and "\<not> is_space (hd code1)"
    and "hd code1 = CHR '';''"
  shows "lexer code prev = append_tokens (lexer (tl code1) (Some EndToken)) [EndToken]"
  using assms by (subst lexer.simps) (simp add: Let_def)

lemma lexer_empty_after_sign:
  assumes "code \<noteq> []"
    and "is_sub = (\<not> (hd code = CHR ''-'' \<and> sign_position prev))"
    and "code1 = (if is_sub then code else tl code)"
    and "code1 = []"
  shows "lexer code prev = Inl IndexError"
  using assms by (subst lexer.simps) (simp add: Let_def)

lemma lexer_unknown:
  assumes "code \<noteq> []"
    and "is_sub = (\<not> (hd code = CHR ''-'' \<and> sign_position prev))"
    and "code1 = (if is_sub then code else tl code)"
    and "code1 \<noteq> []" and "\<not> is_digit (hd code1)"
    and "\<not> (isalpha (hd code1) \<or> hd code1 = CHR ''_'')"
    and "hd code1 \<notin> set ''+-*/=''"
    and "hd code1 \<notin> set ''()''"
    and "\<not> is_space (hd code1)"
    and "hd code1 \<noteq> CHR '';''"
  shows "lexer code prev = Inl (SyntaxError (''Unknown token '' @ [hd code1]))"
  using assms by (subst lexer.simps) (simp add: Let_def)

lemma prev_after_snoc: "prev_after (Some tok) ts' = prev_after prev (ts' @ tok # extra)"
  by (cases ts') (simp_all add: prev_after_def)

lemma last_dropWhile: "dropWhile P xs \<noteq> [] \<Longrightarrow> last (dropWhile P xs) = last xs"
  by (induction xs) (auto split: if_splits)

lemma takeWhile_dropWhile_append:
  assumes "dropWhile P xs \<noteq> [] \<or> ys = [] \<or> \<not> P (hd ys)"
  shows "takeWhile P (xs @ ys) = takeWhile P xs"
    and "dropWhile P (xs @ ys) = dropWhile P xs @ ys"
proof -
  show "takeWhile P (xs @ ys) = takeWhile P xs"
  proof (cases "dropWhile P xs = []")
    case True
    then have all: "\<And>x. x \<in> set xs \<Longrightarrow> P x" by (simp add: dropWhile_eq_Nil_conv)
    from True assms have "takeWhile P ys = []" by (cases ys) auto
    with all show ?thesis by (simp add: takeWhile_append2 takeWhile_eq_all_conv [THEN iffD2])
  next
    case False
    then obtain x where "x \<in> set xs" "\<not> P x" by (auto simp: dropWhile_eq_Nil_conv)
    then show ?thesis by (rule takeWhile_append1)
  qed
  show "dropWhile P (xs @ ys) = dropWhile P xs @ ys"
  proof (cases "dropWhile P xs = []")
    case True
    then have all: "\<And>x. x \<in> set xs \<Longrightarrow> P x" by (simp add: dropWhile_eq_Nil_conv)
    from True assms have "dropWhile P ys = ys" by (cases ys) auto
    with all True show ?thesis by (simp add: dropWhile_append2)
  next
    case False
    then obtain x where "x \<in> set xs" "\<not> P x" by (auto simp: dropWhile_eq_Nil_conv)
    then show ?thesis by (rule dropWhile_append1)
  qed
qed

lemma lexer_append_step:
  assumes whole: "append_tokens (lexer X (Some tok)) (tok # extra) = Inr ts"
    and IH: "\<And>ts'. lexer X (Some tok) = Inr ts' \<Longrightarrow>
               lexer (X @ suf) (Some tok) =
                 append_tokens (lexer suf (prev_after (Some tok) ts')) ts'"
  shows "append_tokens (lexer (X @ suf) (Some tok)) (tok # extra) =
           append_tokens (lexer suf (prev_after prev ts)) ts"
proof -
  from whole obtain ts' where 1: "lexer X (Some tok) = Inr ts'" and 2: "ts = ts' @ tok # extra"
    by (auto simp: append_tokens_eq_Inr)
  show ?thesis
    using IH [OF 1] 2 prev_after_snoc [of tok ts' prev extra] by simp
qed

lemma lexer_append:
  "lexer pre prev = Inr ts \<Longrightarrow> token_boundary pre suf \<Longrightarrow>
     lexer (pre @ suf) prev = append_tokens (lexer suf (prev_after prev ts)) ts"
proof (induction pre prev arbitrary: ts rule: lexer.induct)
  case (1 code prev)
  show ?case
  proof (cases "code = []")
    case True
    with "1.prems" show ?thesis by (simp add: prev_after_def)
  next
    case ne: False
    define is_sub where "is_sub = (\<not> (hd code = CHR ''-'' \<and> sign_position prev))"
    define code1 where "code1 = (if is_sub then code else tl code)"
    have ne2: "code @ suf \<noteq> []" using ne by simp
    have is_sub2: "is_sub = (\<not> (hd (code @ suf) = CHR ''-'' \<and> sign_position prev))"
      using ne by (simp add: is_sub_def)
    have code12: "code1 @ suf = (if is_sub then code @ suf else tl (code @ suf))"
      using ne by (simp add: code1_def)
    have c1: "code1 \<noteq> []"
    proof
      assume "code1 = []"
      from lexer_empty_after_sign [OF ne is_sub_def code1_def this] "1.prems"(1)
      show False by simp
    qed
    have hd2: "hd (code1 @ suf) = hd code1" and tl2: "tl (code1 @ suf) = tl code1 @ suf"
      and c12: "code1 @ suf \<noteq> []"
      using c1 by simp_all
    have last1: "last code1 = last code"
      using c1 ne by (cases code) (auto simp: code1_def)
    have bnd: "token_boundary X suf" if "X = [] \<or> last X = last code" for X
      using that "1.prems"(2) ne by (auto simp: token_boundary_def)
    have bnd_tl: "token_boundary (tl code1) suf"
      using c1 last1 by (intro bnd) (cases code1; auto split: if_splits)
    have bnd_drop: "token_boundary (dropWhile P code1) suf" for P
      using last1 last_dropWhile [of P code1] by (intro bnd) auto
    consider
      (digit) "is_digit (hd code1)"
      | (word) "\<not> is_digit (hd code1)" "isalpha (hd code1) \<or> hd code1 = CHR ''_''"
      | (op) "\<not> is_digit (hd code1)" "\<not> (isalpha (hd code1) \<or> hd code1 = CHR ''_'')"
          "hd code1 \<in> set ''+-*/=''"
      | (paren) "\<not> is_digit (hd code1)" "\<not> (isalpha (hd code1) \<or> hd code1 = CHR ''_'')"
          "hd code1 \<notin> set ''+-*/=''" "hd code1 \<in> set ''()''"
      | (space) "\<not> is_digit (hd code1)" "\<not> (isalpha (hd code1) \<or> hd code1 = CHR ''_'')"
          "hd code1 \<notin> set ''+-*/=''" "hd code1 \<notin> set ''()''" "is_space (hd code1)"
      | (endt) "\<not> is_digit (hd code1)" "\<not> (isalpha (hd code1) \<or> hd code1 = CHR ''_'')"
          "hd code1 \<notin> set ''+-*/=''" "hd code1 \<notin> set ''()''" "\<not> is_space (hd code1)"
          "hd code1 = CHR '';''"
      | (unknown) "\<not> is_digit (hd code1)" "\<not> (isalpha (hd code1) \<or> hd code1 = CHR ''_'')"
          "hd code1 \<notin> set ''+-*/=''" "hd code1 \<notin> set ''()''" "\<not> is_space (hd code1)"
          "hd code1 \<noteq> CHR '';''"
      by blast
    then show ?thesis
    proof cases
      case digit
      define tok where "tok = (if is_sub then IntToken (int_of_digits (takeWhile is_digit code1))
                else IntToken (- int_of_digits (takeWhile is_digit code1)))"
      let ?X = "dropWhile is_digit code1"
      have A: "lexer code prev = append_tokens (lexer ?X (Some tok)) [tok]"
        by (rule lexer_digit [OF ne is_sub_def code1_def c1 digit tok_def])
      have stop: "?X \<noteq> [] \<or> suf = [] \<or> \<not> is_digit (hd suf)"
      proof (cases "?X = []")
        case True
        then have "is_digit (last code1)" using c1 by (simp add: dropWhile_eq_Nil_conv)
        then have "is_word (last code)" using last1 by (simp add: is_digit_is_word)
        with "1.prems"(2) ne have "suf = [] \<or> \<not> is_word (hd suf)"
          by (auto simp: token_boundary_def)
        then show ?thesis using is_digit_is_word by blast
      qed simp
      note tw = takeWhile_dropWhile_append [OF stop]
      have B: "lexer (code @ suf) prev = append_tokens (lexer (?X @ suf) (Some tok)) [tok]"
        using lexer_digit [OF ne2 is_sub2 code12 c12, of tok] digit
        by (simp add: hd2 tw tok_def)
      from A "1.prems"(1) have whole: "append_tokens (lexer ?X (Some tok)) [tok] = Inr ts"
        by simp
      have "append_tokens (lexer (?X @ suf) (Some tok)) [tok] =
              append_tokens (lexer suf (prev_after prev ts)) ts"
        by (rule lexer_append_step [OF whole])
           (rule "1.IH"(1) [OF ne is_sub_def code1_def c1 digit refl tok_def _ bnd_drop])
      then show ?thesis by (simp add: B)
    next
      case word
      define tok where "tok = VarToken (takeWhile is_word code1)"
      let ?X = "dropWhile is_word code1"
      have A: "lexer code prev = append_tokens (lexer ?X (Some tok)) (tok # minus_one is_sub)"
        by (rule lexer_word [OF ne is_sub_def code1_def c1 word tok_def])
      have stop: "?X \<noteq> [] \<or> suf = [] \<or> \<not> is_word (hd suf)"
      proof (cases "?X = []")
        case True
        then have "is_word (last code1)" using c1 by (simp add: dropWhile_eq_Nil_conv)
        then have "is_word (last code)" using last1 by simp
        with "1.prems"(2) ne show ?thesis
          by (auto simp: token_boundary_def)
      qed simp
      note tw = takeWhile_dropWhile_append [OF stop]
      have B: "lexer (code @ suf) prev =
                 append_tokens (lexer (?X @ suf) (Some tok)) (tok # minus_one is_sub)"
        using lexer_word [OF ne2 is_sub2 code12 c12, of tok] word
        by (simp add: hd2 tw tok_def)
      from A "1.prems"(1)
      have whole: "append_tokens (lexer ?X (Some tok)) (tok # minus_one is_sub) = Inr ts"
        by simp
      have "append_tokens (lexer (?X @ suf) (Some tok)) (tok # minus_one is_sub) =
              append_tokens (lexer suf (prev_after prev ts)) ts"
        by (rule lexer_append_step [OF whole])
           (rule "1.IH"(2) [OF ne is_sub_def code1_def c1 word refl _ bnd_drop, folded tok_def])
      then show ?thesis by (simp add: B)
    next
      case op
      define tok where "tok = OpToken [hd code1]"
      have A: "lexer code prev = append_tokens (lexer (tl code1) (Some tok)) [tok]"
        by (rule lexer_op [OF ne is_sub_def code1_def c1 op tok_def])
      have B: "lexer (code @ suf) prev = append_tokens (lexer (tl code1 @ suf) (Some tok)) [tok]"
        using lexer_op [OF ne2 is_sub2 code12 c12, of tok] op
        by (simp add: hd2 tl2 tok_def)
      from A "1.prems"(1) have whole: "append_tokens (lexer (tl code1) (Some tok)) [tok] = Inr ts"
        by simp
      have "append_tokens (lexer (tl code1 @ suf) (Some tok)) [tok] =
              append_tokens (lexer suf (prev_after prev ts)) ts"
        by (rule lexer_append_step [OF whole])
           (rule "1.IH"(3) [OF ne is_sub_def code1_def c1 op _ bnd_tl, folded tok_def])
      then show ?thesis by (simp add: B)
    next
      case paren
      define tok where "tok = ParToken (hd code1 = CHR ''('')"
      have A: "lexer code prev =
                 append_tokens (lexer (tl code1) (Some tok)) (tok # minus_one is_sub)"
        by (rule lexer_paren [OF ne is_sub_def code1_def c1 paren tok_def])
      have B: "lexer (code @ suf) prev =
                 append_tokens (lexer (tl code1 @ suf) (Some tok)) (tok # minus_one is_sub)"
        using lexer_paren [OF ne2 is_sub2 code12 c12, of tok] paren
        by (simp add: hd2 tl2 tok_def)
      from A "1.prems"(1)
      have whole: "append_tokens (lexer (tl code1) (Some tok)) (tok # minus_one is_sub) = Inr ts"
        by simp
      have "append_tokens (lexer (tl code1 @ suf) (Some tok)) (tok # minus_one is_sub) =
              append_tokens (lexer suf (prev_after prev ts)) ts"
        by (rule lexer_append_step [OF whole])
           (rule "1.IH"(4) [OF ne is_sub_def code1_def c1 paren _ bnd_tl, folded tok_def])
      then show ?thesis by (simp add: B)
    next
      case space
      have A: "lexer code prev = lexer (tl code1) prev"
        by (rule lexer_space [OF ne is_sub_def code1_def c1 space])
      have B: "lexer (code @ suf) prev = lexer (tl code1 @ suf) prev"
        using lexer_space [OF ne2 is_sub2 code12 c12] space
        by (simp add: hd2 tl2)
      from A "1.prems"(1) have "lexer (tl code1) prev = Inr ts" by simp
      from "1.IH"(5) [OF ne is_sub_def code1_def c1 space this bnd_tl]
      show ?thesis by (simp add: B)
    next
      case endt
      have A: "lexer code prev = append_tokens (lexer (tl code1) (Some EndToken)) [EndToken]"
        by (rule lexer_end [OF ne is_sub_def code1_def c1 endt])
      have B: "lexer (code @ suf) prev =
                 append_tokens (lexer (tl code1 @ suf) (Some EndToken)) [EndToken]"
        using lexer_end [OF ne2 is_sub2 code12 c12] endt
        by (simp add: hd2 tl2)
      from A "1.prems"(1)
      have whole: "append_tokens (lexer (tl code1) (Some EndToken)) [EndToken] = Inr ts"
        by simp
      have "append_tokens (lexer (tl code1 @ suf) (Some EndToken)) [EndToken] =
              append_tokens (lexer suf (prev_after prev ts)) ts"
        by (rule lexer_append_step [OF whole])
           (rule "1.IH"(6) [OF ne is_sub_def code1_def c1 endt _ bnd_tl])
      then show ?thesis by (simp add: B)
    next
      case unknown
      from lexer_unknown [OF ne is_sub_def code1_def c1 unknown] "1.prems"(1)
      show ?thesis by simp
    qed
  qed
qed

lemma tokenize_after_None: "tokenize code = tokenize_after None code"
  by (simp add: tokenize_def tokenize_after_def)

lemma tokenize_after_append_tokens:
  "(case append_tokens r ts of Inl e \<Rightarrow> Inl e | Inr tokens \<Rightarrow> Inr (rev tokens)) =
     then_tokens (rev ts) (case r of Inl e \<Rightarrow> Inl e | Inr tokens \<Rightarrow> Inr (rev tokens))"
  by (cases r) (simp_all add: then_tokens_def)

lemma prev_after_rev: "prev_after None (rev ts) = last_token ts"
  by (cases ts rule: rev_cases) (simp_all add: prev_after_def last_token_def)

lemma tokenize_append:
  assumes "tokenize pre = Inr ts" and "token_boundary pre suf"
  shows "tokenize (pre @ suf) = then_tokens ts (tokenize_after (last_token ts) suf)"
proof -
  from assms(1) have l: "lexer pre None = Inr (rev ts)"
    by (auto simp: tokenize_def split: sum.splits)
  show ?thesis
    unfolding tokenize_def lexer_append [OF l assms(2)] tokenize_after_append_tokens
    by (simp add: prev_after_rev tokenize_after_def)
qed

lemma is_space_cases: "is_space c \<longleftrightarrow> c = CHR '' '' \<or> c = CHR 0x09 \<or> c = CHR 0x0A \<or> c = CHR 0x0D"
  by (simp add: is_space_def)

lemma is_space_not_others:
  assumes "is_space c"
  shows "c \<noteq> CHR ''-''" "\<not> is_digit c" "\<not> (isalpha c \<or> c = CHR ''_'')" "c \<notin> set ''+-*/=''"
    "c \<notin> set ''()''" "\<not> is_word c"
  using assms
  by (auto simp: is_space_cases is_digit_def isalpha_def isalnum_def is_word_def Let_def)

lemma lexer_skip_space: "is_space c \<Longrightarrow> lexer (c # cs) prev = lexer cs prev"
  using lexer_space [of "c # cs" True prev "c # cs"] is_space_not_others [of c]
  by simp

lemma lexer_skip_spaces: "\<forall>c\<in>set ws. is_space c \<Longrightarrow> lexer (ws @ code) prev = lexer code prev"
  by (induction ws) (simp_all add: lexer_skip_space)

lemma minus_not_others:
  "\<not> is_digit (CHR ''-'')" "\<not> (isalpha (CHR ''-'') \<or> CHR ''-'' = CHR ''_'')" "\<not> is_word (CHR ''-'')"
  by (simp_all add: is_digit_def isalpha_def isalnum_def is_word_def Let_def)

lemma lexer_binary_minus:
  "\<not> sign_position prev \<Longrightarrow>
     lexer (CHR ''-'' # cs) prev =
       append_tokens (lexer cs (Some (OpToken ''-''))) [OpToken ''-'']"
  using lexer_op [of "CHR ''-'' # cs" True prev "CHR ''-'' # cs" "OpToken ''-''"] minus_not_others
  by simp

lemma lexer_literal:
  "is_digit d \<Longrightarrow>
     lexer (d # cs) prev =
       append_tokens
         (lexer (dropWhile is_digit cs) (Some (IntToken (int_of_digits (d # takeWhile is_digit cs)))))
         [IntToken (int_of_digits (d # takeWhile is_digit cs))]"
  using lexer_digit [of "d # cs" True prev "d # cs"
      "IntToken (int_of_digits (d # takeWhile is_digit cs))"] minus_not_others(1)
  by auto

lemma lexer_signed_literal:
  "sign_position prev \<Longrightarrow> is_digit d \<Longrightarrow>
     lexer (CHR ''-'' # d # cs) prev =
       append_tokens
         (lexer (dropWhile is_digit cs) (Some (IntToken (- int_of_digits (d # takeWhile is_digit cs)))))
         [IntToken (- int_of_digits (d # takeWhile is_digit cs))]"
  using lexer_digit [of "CHR ''-'' # d # cs" False prev "d # cs"
      "IntToken (- int_of_digits (d # takeWhile is_digit cs))"]
  by simp





lemma last_token_sign_position:
  "sign_position (last_token ts) \<longleftrightarrow>
     ts = [] \<or> (\<exists>v. last ts = OpToken v) \<or> last ts = ParToken True \<or> last ts = EndToken"
  by (cases "last ts") (auto simp: last_token_def)

lemma token_boundary_minus: "token_boundary pre (CHR ''-'' # cs)"
  by (simp add: token_boundary_def minus_not_others)

lemma tokenize_after_append_tokens2:
  "tokenize_after prev code = r \<Longrightarrow> lexer code prev = append_tokens l ts \<Longrightarrow>
     r = then_tokens (rev ts) (case l of Inl e \<Rightarrow> Inl e | Inr tokens \<Rightarrow> Inr (rev tokens))"
  by (cases l) (auto simp: tokenize_after_def then_tokens_def)

lemma then_tokens_then_tokens [simp]:
  "then_tokens ts (then_tokens us r) = then_tokens (ts @ us) r"
  by (cases r) (simp_all add: then_tokens_def)

lemma tokenize_after_binary_minus:
  "\<not> sign_position prev \<Longrightarrow>
     tokenize_after prev (CHR ''-'' # cs) =
       then_tokens [OpToken ''-''] (tokenize_after (Some (OpToken ''-'')) cs)"
  using tokenize_after_append_tokens2 [OF refl lexer_binary_minus, of prev cs]
  by (simp add: tokenize_after_def)

lemma tokenize_after_literal:
  "is_digit d \<Longrightarrow>
     tokenize_after prev (d # cs) =
       then_tokens [IntToken (int_of_digits (d # takeWhile is_digit cs))]
         (tokenize_after (Some (IntToken (int_of_digits (d # takeWhile is_digit cs))))
            (dropWhile is_digit cs))"
  using tokenize_after_append_tokens2 [OF refl lexer_literal, of d prev cs]
  by (simp add: tokenize_after_def)

lemma tokenize_after_signed_literal:
  "sign_position prev \<Longrightarrow> is_digit d \<Longrightarrow>
     tokenize_after prev (CHR ''-'' # d # cs) =
       then_tokens [IntToken (- int_of_digits (d # takeWhile is_digit cs))]
         (tokenize_after (Some (IntToken (- int_of_digits (d # takeWhile is_digit cs))))
            (dropWhile is_digit cs))"
  using tokenize_after_append_tokens2 [OF refl lexer_signed_literal, of prev d cs]
  by (simp add: tokenize_after_def)



section \<open>The sign of an integer literal\<close>

text \<open>
  Where the rule of the sign holds. Take a text whose part before a \<^verbatim>\<open>-\<close> tokenizes on its
  own, to the tokens \<open>ts\<close>, and in which a digit follows the \<^verbatim>\<open>-\<close> immediately. The \<^verbatim>\<open>-\<close> is
  then read by the \<^verbatim>\<open>match prev\<close> of the lexer, and it is folded
  into the literal, giving the one token \<open>IntToken (- n)\<close>, exactly when no token precedes
  it (\<open>ts\<close> is empty) or the last token before it is an \<open>OpToken\<close>, the open \<open>ParToken\<close>
  or the \<open>EndToken\<close>. After every other token, which is an \<open>IntToken\<close>, a \<open>VarToken\<close> or
  the close \<open>ParToken\<close>, it is the token \<open>OpToken ''-''\<close>, followed by the literal
  \<open>IntToken n\<close>. Here \<open>n\<close> is the value of the longest run of digits after the \<^verbatim>\<open>-\<close>,
  and the tokens of the rest of the text follow in both cases.
\<close>

lemma minus_before_literal:
  assumes "tokenize pre = Inr ts" and "is_digit d"
  shows "tokenize (pre @ CHR ''-'' # d # cs) =
           (let n = int_of_digits (d # takeWhile is_digit cs);
                rest = dropWhile is_digit cs
            in if ts = [] \<or> (\<exists>v. last ts = OpToken v) \<or> last ts = ParToken True \<or>
                  last ts = EndToken
               then then_tokens (ts @ [IntToken (- n)])
                      (tokenize_after (Some (IntToken (- n))) rest)
               else then_tokens (ts @ [OpToken ''-'', IntToken n])
                      (tokenize_after (Some (IntToken n)) rest))"
proof -
  note whole = tokenize_append [OF assms(1) token_boundary_minus, of "d # cs"]
  show ?thesis
  proof (cases "sign_position (last_token ts)")
    case True
    with whole assms(2) show ?thesis
      by (simp add: tokenize_after_signed_literal last_token_sign_position Let_def)
  next
    case False
    with whole assms(2) show ?thesis
      by (simp add: tokenize_after_binary_minus tokenize_after_literal
          last_token_sign_position Let_def)
  qed
qed

lemma minus_before_literal_example:
  "tokenize ''1+'' = Inr [IntToken 1, OpToken ''+'']
   \<and> is_digit (CHR ''5'')
   \<and> tokenize ''1+-5'' = Inr [IntToken 1, OpToken ''+'', IntToken (- 5)]
   \<and> tokenize ''1'' = Inr [IntToken 1]
   \<and> tokenize ''1-5'' = Inr [IntToken 1, OpToken ''-'', IntToken 5]"
proof -
  have a: "tokenize ''1+'' = Inr [IntToken 1, OpToken ''+'']" by code_simp
  have b: "tokenize ''1'' = Inr [IntToken 1]" by code_simp
  have d: "is_digit (CHR ''5'')" by code_simp
  have n: "int_of_digits (CHR ''5'' # takeWhile is_digit []) = 5" by code_simp
  have e: "tokenize_after p (dropWhile is_digit []) = Inr []" for p
    by (simp add: tokenize_after_def)
  have "tokenize (''1+'' @ CHR ''-'' # CHR ''5'' # []) =
      Inr [IntToken 1, OpToken ''+'', IntToken (- 5)]"
    unfolding minus_before_literal [OF a d, of "[]"] Let_def n e
    by (simp add: then_tokens_def)
  moreover have "tokenize (''1'' @ CHR ''-'' # CHR ''5'' # []) =
      Inr [IntToken 1, OpToken ''-'', IntToken 5]"
    unfolding minus_before_literal [OF b d, of "[]"] Let_def n e
    by (simp add: then_tokens_def)
  ultimately show ?thesis using a b d by simp
qed

text \<open>
  C2. The claim: for every input a \<^verbatim>\<open>-\<close> directly before an integer literal is folded into
  the literal, giving one negative \<open>IntToken\<close>, exactly when it stands at the start of the
  input or after an operator, an open parenthesis or a terminator, and is the operator
  token after an integer literal, an identifier or a close parenthesis. The code does not
  do this on \<^verbatim>\<open>--5\<close> and \<^verbatim>\<open>1+--5\<close>. There the first \<^verbatim>\<open>-\<close> is in sign position, so the lexer
  drops it and clears \<^verbatim>\<open>is_subtraction\<close>; the digit, identifier and parenthesis branches
  look at \<^verbatim>\<open>is_subtraction\<close>, but the operator branch, which reads the second \<^verbatim>\<open>-\<close>, does
  not. The second \<^verbatim>\<open>-\<close>, which stands directly before the literal with no token, or only
  the operator \<^verbatim>\<open>+\<close>, before it, becomes the token \<open>OpToken ''-''\<close> and the literal stays
  positive: two tokens where the claim says one negative literal, and the dropped sign
  leaves no token at all. On \<^verbatim>\<open>-5\<close> and \<^verbatim>\<open>1+-5\<close> the sign is folded as the claim says.
  The parser then fails on the tokens of \<^verbatim>\<open>--5\<close> with \<open>IndexError\<close>. The whitespace
  branch ignores \<^verbatim>\<open>is_subtraction\<close> in the same way, so the sign of \<^verbatim>\<open>- 5\<close> is lost as well,
  though there the literal does not follow the \<^verbatim>\<open>-\<close> immediately.
\<close>

theorem minus_in_sign_position_dropped:
  "tokenize ''--5'' = Inr [OpToken ''-'', IntToken 5]
   \<and> tokenize ''1+--5'' = Inr [IntToken 1, OpToken ''+'', OpToken ''-'', IntToken 5]
   \<and> tokenize ''-5'' = Inr [IntToken (- 5)]
   \<and> tokenize ''1+-5'' = Inr [IntToken 1, OpToken ''+'', IntToken (- 5)]
   \<and> run ''--5'' Map.empty = Inl IndexError
   \<and> tokenize ''- 5'' = Inr [IntToken 5]
   \<and> run ''2*- 5'' Map.empty = Inr 10"
  by code_simp

section \<open>Parentheses\<close>

text \<open>
  C3. The claim: parsing the tokens of \<^verbatim>\<open>(1+2\<close> is a syntax error, and so is parsing the
  tokens of \<^verbatim>\<open>)\<close>. The second holds. The first does not: the recursive parse entered at
  the open parenthesis reaches the end of the tokens, drains and returns as it does at
  top level, and the caller never looks for the close parenthesis, so \<^verbatim>\<open>(1+2\<close> parses to
  the sum and evaluates to \<open>3\<close>. Where the close parenthesis is present, the recursive
  parse counts it among the tokens it has consumed.
\<close>

theorem parser_missing_close_paren:
  "tokenize ''(1+2'' = Inr [ParToken True, IntToken 1, OpToken ''+'', IntToken 2]
   \<and> parser [ParToken True, IntToken 1, OpToken ''+'', IntToken 2] 0 =
       Inr (Sum (IntExp 1) (IntExp 2), 4)
   \<and> run ''(1+2'' Map.empty = Inr 3
   \<and> tokenize '')'' = Inr [ParToken False]
   \<and> parser [ParToken False] 0 = Inl (SyntaxError ''Unbalanced parentheses'')
   \<and> parser [IntToken 1, OpToken ''+'', IntToken 2, ParToken False] 1 =
       Inr (Sum (IntExp 1) (IntExp 2), 4)
   \<and> parser [ParToken True, IntToken 1, OpToken ''+'', IntToken 2, ParToken False] 0 =
       Inr (Sum (IntExp 1) (IntExp 2), 5)"
  by code_simp

section \<open>Division by zero\<close>

text \<open>
  C4. Evaluating a \<open>Quotient\<close> whose right operand evaluates to zero is an error, never a
  value: when the left operand has a value the error is \<open>ZeroDivisionError\<close>, and otherwise
  it is the error of the left operand, which is evaluated first. The pipeline on \<^verbatim>\<open>1/0\<close>
  returns \<open>ZeroDivisionError\<close> under every environment.
\<close>

theorem eval_quotient_by_zero:
  assumes "eval right env = Inr 0"
  shows "eval (Quotient left right) env =
           (case eval left env of Inl e \<Rightarrow> Inl e | Inr a \<Rightarrow> Inl ZeroDivisionError)
         \<and> (\<exists>e. eval (Quotient left right) env = Inl e)
         \<and> run ''1/0'' env' = Inl ZeroDivisionError"
proof -
  have "tokenize ''1/0'' = Inr [IntToken 1, OpToken ''/'', IntToken 0]"
    by code_simp
  moreover have "parser [IntToken 1, OpToken ''/'', IntToken 0] 0 =
      Inr (Quotient (IntExp 1) (IntExp 0), 3)"
    by code_simp
  ultimately have "run ''1/0'' env' = Inl ZeroDivisionError"
    by (simp add: run_def)
  with assms show ?thesis
    by (cases "eval left env") simp_all
qed

theorem eval_quotient_by_zero_witness:
  "eval (IntExp 0) Map.empty = Inr 0
   \<and> eval (Quotient (IntExp 1) (IntExp 0)) Map.empty = Inl ZeroDivisionError
   \<and> run ''1/0'' Map.empty = Inl ZeroDivisionError"
  using eval_quotient_by_zero [of "IntExp 0" Map.empty "IntExp 1" Map.empty] by simp

section \<open>Malformed token arrangements\<close>

text \<open>
  C5. The claim: a malformed arrangement other than unbalanced parentheses and an invalid
  assignment target makes the parser fail with the generic syntax error. The code does
  not: an operator with a missing operand (\<^verbatim>\<open>1+\<close>) makes \<^verbatim>\<open>handle_top\<close> pop the empty
  operand stack, which is \<open>IndexError\<close>; two operands with no operator (\<^verbatim>\<open>1 2\<close>) parse
  successfully to the first operand; the empty statement reads \<^verbatim>\<open>exp_stk[0]\<close> of the empty
  stack, which is \<open>IndexError\<close>.
\<close>

theorem parser_malformed_arrangements:
  "tokenize ''1+'' = Inr [IntToken 1, OpToken ''+'']
   \<and> parser [IntToken 1, OpToken ''+''] 0 = Inl IndexError
   \<and> tokenize ''1 2'' = Inr [IntToken 1, IntToken 2]
   \<and> parser [IntToken 1, IntToken 2] 0 = Inr (IntExp 1, 2)
   \<and> tokenize [] = Inr []
   \<and> parser [] 0 = Inl IndexError
   \<and> parser [EndToken] 0 = Inl IndexError"
  by code_simp

section \<open>Assignment and the environment of the caller\<close>

lemma eval_store_extends:
  "a < length h \<Longrightarrow> \<exists>new. eval_store e a h = (eval e (h ! a), h @ new)"
proof (induction e arbitrary: a h)
  case (Sum l r)
  from Sum.IH(1) [OF Sum.prems] obtain n1
    where 1: "eval_store l a h = (eval l (h ! a), h @ n1)" by blast
  from Sum.IH(2) [of a "h @ n1"] Sum.prems obtain n2
    where 2: "eval_store r a (h @ n1) = (eval r (h ! a), (h @ n1) @ n2)"
    by (auto simp: nth_append)
  show ?case using 1 2 by (auto split: sum.splits)
next
  case (Difference l r)
  from Difference.IH(1) [OF Difference.prems] obtain n1
    where 1: "eval_store l a h = (eval l (h ! a), h @ n1)" by blast
  from Difference.IH(2) [of a "h @ n1"] Difference.prems obtain n2
    where 2: "eval_store r a (h @ n1) = (eval r (h ! a), (h @ n1) @ n2)"
    by (auto simp: nth_append)
  show ?case using 1 2 by (auto split: sum.splits)
next
  case (Negation e)
  from Negation.IH [OF Negation.prems] obtain n1
    where 1: "eval_store e a h = (eval e (h ! a), h @ n1)" by blast
  show ?case using 1 by (auto split: sum.splits)
next
  case (Product l r)
  from Product.IH(1) [OF Product.prems] obtain n1
    where 1: "eval_store l a h = (eval l (h ! a), h @ n1)" by blast
  from Product.IH(2) [of a "h @ n1"] Product.prems obtain n2
    where 2: "eval_store r a (h @ n1) = (eval r (h ! a), (h @ n1) @ n2)"
    by (auto simp: nth_append)
  show ?case using 1 2 by (auto split: sum.splits)
next
  case (Quotient l r)
  from Quotient.IH(1) [OF Quotient.prems] obtain n1
    where 1: "eval_store l a h = (eval l (h ! a), h @ n1)" by blast
  from Quotient.IH(2) [of a "h @ n1"] Quotient.prems obtain n2
    where 2: "eval_store r a (h @ n1) = (eval r (h ! a), (h @ n1) @ n2)"
    by (auto simp: nth_append)
  show ?case using 1 2 by (auto split: sum.splits)
next
  case (IntExp v)
  show ?case by simp
next
  case (Assign name val body)
  let ?h0 = "h @ [h ! a]"
  from Assign.IH(1) [of "length h" ?h0] obtain n1
    where 1: "eval_store val (length h) ?h0 = (eval val (h ! a), ?h0 @ n1)"
    by auto
  show ?case
  proof (cases "eval val (h ! a)")
    case (Inl e)
    with 1 show ?thesis by (simp add: Let_def)
  next
    case (Inr v)
    let ?h2 = "h @ [(h ! a)(name \<mapsto> v)] @ n1"
    have upd: "(?h0 @ n1)[length h := ((?h0 @ n1) ! length h)(name \<mapsto> v)] = ?h2"
      by (simp add: list_update_append nth_append)
    have at: "?h2 ! length h = (h ! a)(name \<mapsto> v)"
      by (simp only: append_Cons append_Nil nth_append_length)
    have "length h < length ?h2" by simp
    from Assign.IH(2) [OF this] obtain n2
      where "eval_store body (length h) ?h2 = (eval body (?h2 ! length h), ?h2 @ n2)"
      by blast
    then have 2: "eval_store body (length h) ?h2 = (eval body ((h ! a)(name \<mapsto> v)), ?h2 @ n2)"
      unfolding at .
    have "eval_store (Assign name val body) a h = (eval body ((h ! a)(name \<mapsto> v)), ?h2 @ n2)"
      using 1 Inr upd 2 by (simp add: Let_def del: append_assoc)
    then show ?thesis using Inr by simp
  qed
next
  case (Var name)
  show ?case by (simp split: option.splits)
qed

text \<open>
  C6. Evaluating an \<open>Assign\<close> node with the dictionary at address \<open>a\<close> as its
  environment changes no dictionary that existed before the call, the caller's among
  them: the store after the call is the store before it followed by new dictionaries.
  The result is that of the body under the caller's bindings with \<open>name\<close> bound to the
  value of the value expression, itself evaluated under the caller's bindings. After the
  call every expression evaluated with the caller's dictionary sees the bindings it had
  before the call, so the new binding is not visible.
\<close>

theorem assign_leaves_caller_env:
  assumes "a < length h"
    and "eval_store (Assign name val body) a h = (r, h')"
  shows "take (length h) h' = h
         \<and> h' ! a = h ! a
         \<and> r = (case eval val (h ! a) of Inl e \<Rightarrow> Inl e
                | Inr v \<Rightarrow> eval body ((h ! a)(name \<mapsto> v)))
         \<and> (\<forall>e. fst (eval_store e a h') = eval e (h ! a))"
proof -
  from eval_store_extends [OF assms(1), of "Assign name val body"] assms(2)
  obtain new where h': "h' = h @ new" and r: "r = eval (Assign name val body) (h ! a)"
    by auto
  have a': "a < length h'" and same: "h' ! a = h ! a"
    using assms(1) h' by (simp_all add: nth_append)
  have "fst (eval_store e a h') = eval e (h ! a)" for e
    using eval_store_extends [OF a', of e] same by auto
  then show ?thesis using h' r same by simp
qed

theorem assign_leaves_caller_env_witness:
  "(0::nat) < length [[''x'' \<mapsto> (5::int)]]
   \<and> eval_store (Assign ''x'' (IntExp 3) (Sum (Var ''x'') (IntExp 2))) 0 [[''x'' \<mapsto> 5]] =
       (Inr 5, [[''x'' \<mapsto> 5], [''x'' \<mapsto> 3]])
   \<and> take 1 [[''x'' \<mapsto> (5::int)], [''x'' \<mapsto> 3]] = [[''x'' \<mapsto> 5]]
   \<and> fst (eval_store (Var ''x'') 0 [[''x'' \<mapsto> 5], [''x'' \<mapsto> 3]]) = Inr 5"
proof -
  have e: "eval_store (Assign ''x'' (IntExp 3) (Sum (Var ''x'') (IntExp 2))) 0 [[''x'' \<mapsto> 5]] =
       (Inr 5, [[''x'' \<mapsto> 5], [''x'' \<mapsto> 3]])"
    by (simp add: Let_def)
  have l: "(0::nat) < length [[''x'' \<mapsto> (5::int)]]" by simp
  from assign_leaves_caller_env [OF l e] show ?thesis using e by simp
qed

section \<open>Assignment in the pipeline\<close>

text \<open>
  C7. Under the empty environment the pipeline returns \<open>5\<close> on \<^verbatim>\<open>x=5;x\<close> and \<open>10\<close> on
  \<^verbatim>\<open>x=5;y=(x=3;x+2)+x;y\<close>. In the second the parser nests the inner assignment inside the
  left operand of the sum: under \<open>x = 5\<close> the inner assignment evaluates to \<open>5\<close> and the
  \<open>x\<close> to its right is still \<open>5\<close>.
\<close>

theorem run_assignment_shadowing:
  "run ''x=5;x'' Map.empty = Inr 5
   \<and> run ''x=5;y=(x=3;x+2)+x;y'' Map.empty = Inr 10
   \<and> (case tokenize ''x=5;y=(x=3;x+2)+x;y'' of Inl e \<Rightarrow> Inl e | Inr tokens \<Rightarrow> parser tokens 0) =
       Inr (Assign ''x'' (IntExp 5)
             (Assign ''y''
               (Sum (Assign ''x'' (IntExp 3) (Sum (Var ''x'') (IntExp 2))) (Var ''x''))
               (Var ''y'')), 19)
   \<and> eval (Assign ''x'' (IntExp 3) (Sum (Var ''x'') (IntExp 2))) [''x'' \<mapsto> 5] = Inr 5
   \<and> eval (Sum (Assign ''x'' (IntExp 3) (Sum (Var ''x'') (IntExp 2))) (Var ''x''))
         [''x'' \<mapsto> 5] = Inr 10"
  by code_simp

section \<open>Unary minus before an identifier or a parenthesis\<close>



section \<open>The order of the tokens\<close>

text \<open>
  C9. The sequence that the parser receives, \<^verbatim>\<open>lexer(user_code)[::-1]\<close>, is in source
  order: cut the text at any token boundary into \<open>pre\<close> and \<open>suf\<close>, where \<open>pre\<close> tokenizes
  on its own to \<open>ts\<close>. Then the tokens of the whole text are \<open>ts\<close> followed by the tokens
  of \<open>suf\<close>, read with the last token of \<open>ts\<close> as the preceding token; so when the whole
  text tokenizes, its first \<open>length ts\<close> tokens are those of \<open>pre\<close> and the others are
  those of \<open>suf\<close>. The tokens of an earlier part of the text thus always come before the
  tokens of a later part, and the reverse order in which \<^verbatim>\<open>lexer\<close> builds its list does
  not show. This holds for every text, with or without a desugared unary minus.
\<close>

theorem tokenize_source_order:
  assumes "tokenize pre = Inr ts" and "token_boundary pre suf"
  shows "tokenize (pre @ suf) = then_tokens ts (tokenize_after (last_token ts) suf)
         \<and> (\<forall>all. tokenize (pre @ suf) = Inr all \<longrightarrow>
               take (length ts) all = ts
               \<and> tokenize_after (last_token ts) suf = Inr (drop (length ts) all))"
proof -
  have 1: "tokenize (pre @ suf) = then_tokens ts (tokenize_after (last_token ts) suf)"
    by (rule tokenize_append [OF assms])
  then show ?thesis
    by (cases "tokenize_after (last_token ts) suf") (simp_all add: then_tokens_def)
qed

theorem tokenize_source_order_witness:
  "tokenize ''1+'' = Inr [IntToken 1, OpToken ''+'']
   \<and> token_boundary ''1+'' ''2*3''
   \<and> tokenize ''1+2*3'' =
       Inr [IntToken 1, OpToken ''+'', IntToken 2, OpToken ''*'', IntToken 3]"
proof -
  have a: "tokenize ''1+'' = Inr [IntToken 1, OpToken ''+'']" by code_simp
  have b: "token_boundary ''1+'' ''2*3''" by code_simp
  have c: "tokenize_after (last_token [IntToken 1, OpToken ''+'']) ''2*3'' =
      Inr [IntToken 2, OpToken ''*'', IntToken 3]" by code_simp
  from tokenize_source_order [OF a b]
  have "tokenize (''1+'' @ ''2*3'') = then_tokens [IntToken 1, OpToken ''+'']
      (tokenize_after (last_token [IntToken 1, OpToken ''+'']) ''2*3'')"
    by (rule conjunct1)
  then have "tokenize ''1+2*3'' =
       Inr [IntToken 1, OpToken ''+'', IntToken 2, OpToken ''*'', IntToken 3]"
    unfolding c by (simp add: then_tokens_def)
  with a b show ?thesis by simp
qed

section \<open>Whitespace before a binary minus\<close>

text \<open>
  C10. Where the part of the text before a \<^verbatim>\<open>-\<close> tokenizes on its own and its last token is
  an integer literal, an identifier or a close parenthesis, and only whitespace stands
  between that part and the \<^verbatim>\<open>-\<close>, the \<^verbatim>\<open>-\<close> is the token \<open>OpToken ''-''\<close>, and the tokens
  of the whole text are those of the text without that whitespace.
\<close>

theorem binary_minus_after_whitespace:
  assumes "tokenize pre = Inr ts"
    and "ts \<noteq> []"
    and "(\<exists>n. last ts = IntToken n) \<or> (\<exists>x. last ts = VarToken x) \<or> last ts = ParToken False"
    and "\<forall>c\<in>set ws. is_space c"
  shows "tokenize (pre @ ws @ CHR ''-'' # rest) =
           then_tokens (ts @ [OpToken ''-'']) (tokenize_after (Some (OpToken ''-'')) rest)
         \<and> tokenize (pre @ ws @ CHR ''-'' # rest) = tokenize (pre @ CHR ''-'' # rest)"
proof -
  from assms(2,3) have ns: "\<not> sign_position (last_token ts)"
    by (auto simp: last_token_def)
  have b: "token_boundary pre (ws @ CHR ''-'' # rest)"
  proof (cases ws)
    case Nil
    then show ?thesis by (simp add: token_boundary_minus)
  next
    case (Cons c ws')
    with assms(4) have "\<not> is_word c" by (simp add: is_space_not_others)
    with Cons show ?thesis by (simp add: token_boundary_def)
  qed
  have skip: "tokenize_after p (ws @ code) = tokenize_after p code" for p code
    by (simp add: tokenize_after_def lexer_skip_spaces [OF assms(4)])
  have 1: "tokenize (pre @ ws @ CHR ''-'' # rest) =
           then_tokens (ts @ [OpToken ''-'']) (tokenize_after (Some (OpToken ''-'')) rest)"
    using tokenize_append [OF assms(1) b] ns
    by (simp add: skip tokenize_after_binary_minus)
  have 2: "tokenize (pre @ CHR ''-'' # rest) =
           then_tokens (ts @ [OpToken ''-'']) (tokenize_after (Some (OpToken ''-'')) rest)"
    using tokenize_append [OF assms(1) token_boundary_minus] ns
    by (simp add: tokenize_after_binary_minus)
  from 1 2 show ?thesis by simp
qed

theorem binary_minus_after_whitespace_witness:
  "tokenize ''1'' = Inr [IntToken 1]
   \<and> is_space (CHR '' '')
   \<and> tokenize ''1 - 2'' = Inr [IntToken 1, OpToken ''-'', IntToken 2]
   \<and> tokenize ''1- 2'' = Inr [IntToken 1, OpToken ''-'', IntToken 2]"
proof -
  have a: "tokenize ''1'' = Inr [IntToken 1]" by code_simp
  have b: "[IntToken 1] \<noteq> []" by simp
  have c: "(\<exists>n. last [IntToken 1] = IntToken n) \<or> (\<exists>x. last [IntToken 1] = VarToken x)
      \<or> last [IntToken 1] = ParToken False" by simp
  have d: "\<forall>c\<in>set '' ''. is_space c" by (simp add: is_space_def)
  have e: "tokenize_after (Some (OpToken ''-'')) '' 2'' = Inr [IntToken 2]" by code_simp
  note t = binary_minus_after_whitespace [OF a b c d, of "'' 2''"]
  from t have 1: "tokenize (''1'' @ '' '' @ CHR ''-'' # '' 2'') =
      then_tokens ([IntToken 1] @ [OpToken ''-'']) (tokenize_after (Some (OpToken ''-'')) '' 2'')"
    by (rule conjunct1)
  from t have 2: "tokenize (''1'' @ '' '' @ CHR ''-'' # '' 2'') = tokenize (''1'' @ CHR ''-'' # '' 2'')"
    by (rule conjunct2)
  from 1 have 3: "tokenize ''1 - 2'' = Inr [IntToken 1, OpToken ''-'', IntToken 2]"
    unfolding e by (simp add: then_tokens_def)
  from 2 [unfolded 1 e] have 4: "tokenize ''1- 2'' = Inr [IntToken 1, OpToken ''-'', IntToken 2]"
    by (simp add: then_tokens_def)
  have d': "is_space (CHR '' '')" by (simp add: is_space_def)
  from 3 4 a d' show ?thesis by simp
qed

end
